theory Spec2Isabelle
  imports Complex_Main "HOL-Library.Word"
begin

unbundle bit_operations_syntax

section \<open>GayBerneForceImpl: parameter checks and kernel dispatch\<close>

text \<open>
  A shallow embedding of \<^verbatim>\<open>openmmapi/src/GayBerneForceImpl.cpp\<close>.

  Conventions of the model:
  \<^item> A C++ \<^verbatim>\<open>double\<close> is a \<^typ>\<open>real\<close>. The source only compares doubles with each other
    and with zero and halves a box length; NaN, infinities and the rounding of subnormal
    numbers are outside the model.
  \<^item> A C++ \<^verbatim>\<open>int\<close> that is only compared is an \<^typ>\<open>int\<close>; the group mask, which is
    tested bitwise, is a \<^typ>\<open>32 word\<close>.
  \<^item> A thrown exception is the \<open>Inl\<close> of a sum; a function that mutates the object or the
    context returns the object and the context as they are at the moment it returns or throws.
  \<^item> The platform, its kernel and the context's \<^verbatim>\<open>systemChanged\<close> are not part of this
    source file. They are parameters of the model (the record \<open>Platform\<close>), acting on an
    opaque state \<open>'w\<close>; every call the source makes to them is also appended to the
    context's \<open>calls\<close> log, in the order the calls are made.
\<close>

subsection \<open>Data\<close>

datatype NonbondedMethod = NoCutoff | CutoffNonPeriodic | CutoffPeriodic

text \<open>The values written by \<^verbatim>\<open>getParticleParameters\<close>.\<close>

record ParticleInfo =
  sigma :: real
  epsilon :: real
  xparticle :: int
  yparticle :: int
  rx :: real
  ry :: real
  rz :: real
  ex :: real
  ey :: real
  ez :: real

text \<open>The values written by \<^verbatim>\<open>getExceptionParameters\<close>; \<open>particle0\<close> and \<open>particle1\<close>
  are \<^verbatim>\<open>particle[0]\<close> and \<^verbatim>\<open>particle[1]\<close>.\<close>

record ExceptionInfo =
  particle0 :: int
  particle1 :: int
  exceptionSigma :: real
  exceptionEpsilon :: real

text \<open>
  Modelled from the spec: the class \<^verbatim>\<open>GayBerneForce\<close> (its header is not part of the
  source at hand). The spec's data model gives it per-particle parameters, an ordered
  sequence of exceptions, the nonbonded method, the cutoff and switching settings and a
  force group; the source reads them through getters only.
\<close>

record GayBerneForce =
  particles :: "ParticleInfo list"
  exceptions :: "ExceptionInfo list"
  nonbondedMethod :: NonbondedMethod
  cutoffDistance :: real
  useSwitchingFunction :: bool
  switchingDistance :: real
  forceGroup :: int

definition getNumParticles :: "GayBerneForce \<Rightarrow> int" where
  "getNumParticles force = int (length (particles force))"

definition getNumExceptions :: "GayBerneForce \<Rightarrow> int" where
  "getNumExceptions force = int (length (exceptions force))"

type_synonym Vec3 = "real \<times> real \<times> real"

definition vec0 :: "Vec3 \<Rightarrow> real" where "vec0 v = fst v"
definition vec1 :: "Vec3 \<Rightarrow> real" where "vec1 v = fst (snd v)"
definition vec2 :: "Vec3 \<Rightarrow> real" where "vec2 v = snd (snd v)"

text \<open>What the source reads from the \<^verbatim>\<open>System\<close>: its particle count and its default
  periodic box vectors.\<close>

record System =
  systemNumParticles :: int
  defaultPeriodicBoxVectors :: "Vec3 \<times> Vec3 \<times> Vec3"

text \<open>
  One constructor for each \<^verbatim>\<open>throw\<close> of the source, carrying the numbers the message
  prints. \<open>KernelFailure\<close> is an exception raised inside the platform or the kernel.
  \<open>UndefinedBehaviour\<close> is not an exception: it marks the places where the C++ has no
  defined result (an empty \<^verbatim>\<open>Kernel\<close> is dereferenced, or 1 is shifted by a count outside
  0..31).
\<close>

datatype failure =
    ParticleCountMismatch
  | IllegalSwitchingDistance
  | IllegalXParticle int
  | IllegalYParticle int
  | NegativeParticleSigma
  | NegativeParticleEpsilon
  | NonPositiveRadii
  | NonPositiveScaleFactors
  | IllegalExceptionParticle int
  | MultipleExceptions int int
  | NegativeExceptionSigma
  | NegativeExceptionEpsilon
  | CutoffTooLarge
  | KernelFailure string
  | UndefinedBehaviour

subsection \<open>The checks of \<^verbatim>\<open>initialize\<close>\<close>

text \<open>The body of the loop over the particles (lines 62 to 84), for one particle.\<close>

definition checkParticle :: "int \<Rightarrow> ParticleInfo \<Rightarrow> failure + unit" where
  "checkParticle n p =
     (if xparticle p < -1 \<or> xparticle p \<ge> n then Inl (IllegalXParticle (xparticle p))
      else if yparticle p < -1 \<or> yparticle p \<ge> n then Inl (IllegalYParticle (yparticle p))
      else if sigma p < 0 then Inl NegativeParticleSigma
      else if epsilon p < 0 then Inl NegativeParticleEpsilon
      else if rx p \<le> 0 \<or> ry p \<le> 0 \<or> rz p \<le> 0 then Inl NonPositiveRadii
      else if ex p \<le> 0 \<or> ey p \<le> 0 \<or> ez p \<le> 0 then Inl NonPositiveScaleFactors
      else Inr ())"

text \<open>The loop over the particles, in index order; the first throw ends it.\<close>

fun checkParticles :: "int \<Rightarrow> ParticleInfo list \<Rightarrow> failure + unit" where
  "checkParticles n [] = Inr ()"
| "checkParticles n (p # ps) =
     (case checkParticle n p of
        Inl e \<Rightarrow> Inl e
      | Inr _ \<Rightarrow> checkParticles n ps)"

text \<open>
  The body of the loop over the exceptions (lines 88 to 112), for one exception. \<open>seen\<close> is
  the local \<^verbatim>\<open>vector<set<int> > exceptions\<close>, of length \<open>n\<close>; it is indexed only after
  both indices have been found to lie in \<open>0..<n\<close>.
\<close>

definition checkException ::
  "int \<Rightarrow> int set list \<Rightarrow> ExceptionInfo \<Rightarrow> failure + int set list" where
  "checkException n seen e =
     (let p0 = particle0 e; p1 = particle1 e in
      if p0 < 0 \<or> p0 \<ge> n then Inl (IllegalExceptionParticle p0)
      else if p1 < 0 \<or> p1 \<ge> n then Inl (IllegalExceptionParticle p1)
      else if p1 \<in> seen ! nat p0 \<or> p0 \<in> seen ! nat p1 then Inl (MultipleExceptions p0 p1)
      else if exceptionSigma e < 0 then Inl NegativeExceptionSigma
      else if exceptionEpsilon e < 0 then Inl NegativeExceptionEpsilon
      else
        (let seen1 = seen[nat p0 := insert p1 (seen ! nat p0)]
         in Inr (seen1[nat p1 := insert p0 (seen1 ! nat p1)])))"

text \<open>The loop over the exceptions, in declaration order.\<close>

fun checkExceptions :: "int \<Rightarrow> int set list \<Rightarrow> ExceptionInfo list \<Rightarrow> failure + int set list" where
  "checkExceptions n seen [] = Inr seen"
| "checkExceptions n seen (e # es) =
     (case checkException n seen e of
        Inl err \<Rightarrow> Inl err
      | Inr seen' \<Rightarrow> checkExceptions n seen' es)"

text \<open>Lines 114 to 120: the box is read only under \<open>CutoffPeriodic\<close>.\<close>

definition checkPeriodicCutoff :: "GayBerneForce \<Rightarrow> System \<Rightarrow> failure + unit" where
  "checkPeriodicCutoff force system =
     (if nonbondedMethod force = CutoffPeriodic then
        (case defaultPeriodicBoxVectors system of (box0, box1, box2) \<Rightarrow>
           (let cutoff = cutoffDistance force in
            if cutoff > 0.5 * vec0 box0 \<or> cutoff > 0.5 * vec1 box1 \<or> cutoff > 0.5 * vec2 box2
            then Inl CutoffTooLarge
            else Inr ()))
      else Inr ())"

text \<open>
  Lines 54 to 120 of \<^verbatim>\<open>initialize\<close>: everything between the creation of the kernel and
  the call of its \<^verbatim>\<open>initialize\<close>. The source has no function of this name; the spec
  calls this part \<open>validate\<close>.
\<close>

definition validate :: "GayBerneForce \<Rightarrow> System \<Rightarrow> failure + unit" where
  "validate force system =
     (if getNumParticles force \<noteq> systemNumParticles system then Inl ParticleCountMismatch
      else if useSwitchingFunction force \<and>
              (switchingDistance force < 0 \<or> switchingDistance force \<ge> cutoffDistance force)
      then Inl IllegalSwitchingDistance
      else
        (case checkParticles (getNumParticles force) (particles force) of
           Inl e \<Rightarrow> Inl e
         | Inr _ \<Rightarrow>
            (case checkExceptions (getNumParticles force)
                    (replicate (nat (getNumParticles force)) {}) (exceptions force) of
               Inl e \<Rightarrow> Inl e
             | Inr _ \<Rightarrow> checkPeriodicCutoff force system)))"

subsection \<open>The platform and the context\<close>

datatype call =
    CreateKernel string
  | KernelInitialize
  | KernelExecute bool bool
  | KernelCopyParametersToContext
  | SystemChanged

text \<open>
  The collaborators of this source file. \<open>'h\<close> is a kernel handle, \<open>'w\<close> the state they
  act on (the context's force buffer and the kernels' own data among it). An operation
  returns what it returns or throws, and the state it leaves.
\<close>

record ('h, 'w) Platform =
  kernelName :: string
  createKernel :: "string \<Rightarrow> 'w \<Rightarrow> (failure + 'h) \<times> 'w"
  kernelInitialize :: "'h \<Rightarrow> System \<Rightarrow> GayBerneForce \<Rightarrow> 'w \<Rightarrow> (failure + unit) \<times> 'w"
  kernelExecute :: "'h \<Rightarrow> bool \<Rightarrow> bool \<Rightarrow> 'w \<Rightarrow> (failure + real) \<times> 'w"
  kernelCopyParametersToContext :: "'h \<Rightarrow> GayBerneForce \<Rightarrow> 'w \<Rightarrow> (failure + unit) \<times> 'w"
  systemChanged :: "'w \<Rightarrow> 'w"

record 'w ContextImpl =
  getSystem :: System
  world :: 'w
  calls :: "call list"

text \<open>The object: its force and its kernel handle, \<open>None\<close> while the \<^verbatim>\<open>Kernel\<close> is
  empty.\<close>

record 'h GayBerneForceImpl =
  owner :: GayBerneForce
  kernel :: "'h option"

definition called :: "call \<Rightarrow> 'w \<Rightarrow> 'w ContextImpl \<Rightarrow> 'w ContextImpl" where
  "called c w context = context\<lparr>world := w, calls := calls context @ [c]\<rparr>"

subsection \<open>The member functions\<close>

definition initialize ::
  "('h, 'w) Platform \<Rightarrow> 'h GayBerneForceImpl \<Rightarrow> 'w ContextImpl \<Rightarrow>
     (failure + unit) \<times> 'h GayBerneForceImpl \<times> 'w ContextImpl" where
  "initialize platform impl context =
     (case createKernel platform (kernelName platform) (world context) of
        (Inl e, w) \<Rightarrow> (Inl e, impl, called (CreateKernel (kernelName platform)) w context)
      | (Inr h, w) \<Rightarrow>
         (let impl1 = impl\<lparr>kernel := Some h\<rparr>;
              context1 = called (CreateKernel (kernelName platform)) w context
          in case validate (owner impl1) (getSystem context1) of
               Inl e \<Rightarrow> (Inl e, impl1, context1)
             | Inr _ \<Rightarrow>
                (case kernelInitialize platform h (getSystem context1) (owner impl1)
                        (world context1) of
                   (r, w') \<Rightarrow> (r, impl1, called KernelInitialize w' context1))))"

definition groupBit :: "int \<Rightarrow> 32 word" where
  "groupBit g = push_bit (nat g) 1"

definition calcForcesAndEnergy ::
  "('h, 'w) Platform \<Rightarrow> 'h GayBerneForceImpl \<Rightarrow> 'w ContextImpl \<Rightarrow> bool \<Rightarrow> bool \<Rightarrow> 32 word \<Rightarrow>
     (failure + real) \<times> 'h GayBerneForceImpl \<times> 'w ContextImpl" where
  "calcForcesAndEnergy platform impl context includeForces includeEnergy groups =
     (if forceGroup (owner impl) < 0 \<or> forceGroup (owner impl) \<ge> 32
      then (Inl UndefinedBehaviour, impl, context)
      else if groups AND groupBit (forceGroup (owner impl)) \<noteq> 0 then
        (case kernel impl of
           None \<Rightarrow> (Inl UndefinedBehaviour, impl, context)
         | Some h \<Rightarrow>
            (case kernelExecute platform h includeForces includeEnergy (world context) of
               (r, w) \<Rightarrow> (r, impl, called (KernelExecute includeForces includeEnergy) w context)))
      else (Inr 0, impl, context))"

definition getKernelNames :: "('h, 'w) Platform \<Rightarrow> string list" where
  "getKernelNames platform = [kernelName platform]"

definition updateParametersInContext ::
  "('h, 'w) Platform \<Rightarrow> 'h GayBerneForceImpl \<Rightarrow> 'w ContextImpl \<Rightarrow>
     (failure + unit) \<times> 'h GayBerneForceImpl \<times> 'w ContextImpl" where
  "updateParametersInContext platform impl context =
     (case kernel impl of
        None \<Rightarrow> (Inl UndefinedBehaviour, impl, context)
      | Some h \<Rightarrow>
         (case kernelCopyParametersToContext platform h (owner impl) (world context) of
            (Inl e, w) \<Rightarrow> (Inl e, impl, called KernelCopyParametersToContext w context)
          | (Inr _, w) \<Rightarrow>
             (let context1 = called KernelCopyParametersToContext w context
              in (Inr (), impl, called SystemChanged (systemChanged platform (world context1)) context1))))"

subsection \<open>The order of the checks, as the specification words it\<close>

text \<open>
  The specification describes the checks as one fixed sequence, of which the first violated
  one is reported: the particle count, the switching distance, then for each particle in
  index order the six particle checks, then for each exception in declaration order its
  five checks (the duplicate check looks at the exceptions declared before it, and a pair
  is the same in either orientation), and the periodic cutoff last. \<open>violationsInOrder\<close>
  is that sequence and \<open>firstViolation\<close> its first failure; they are compared with
  \<open>validate\<close> below.
\<close>

definition sameUnorderedPair :: "ExceptionInfo \<Rightarrow> ExceptionInfo \<Rightarrow> bool" where
  "sameUnorderedPair e e' \<longleftrightarrow>
     (particle0 e = particle0 e' \<and> particle1 e = particle1 e') \<or>
     (particle0 e = particle1 e' \<and> particle1 e = particle0 e')"

definition violated :: "bool \<Rightarrow> failure \<Rightarrow> failure + unit" where
  "violated b e = (if b then Inl e else Inr ())"

definition particleViolations :: "int \<Rightarrow> ParticleInfo \<Rightarrow> (failure + unit) list" where
  "particleViolations n p =
     [violated (xparticle p < -1 \<or> xparticle p \<ge> n) (IllegalXParticle (xparticle p)),
      violated (yparticle p < -1 \<or> yparticle p \<ge> n) (IllegalYParticle (yparticle p)),
      violated (sigma p < 0) NegativeParticleSigma,
      violated (epsilon p < 0) NegativeParticleEpsilon,
      violated (rx p \<le> 0 \<or> ry p \<le> 0 \<or> rz p \<le> 0) NonPositiveRadii,
      violated (ex p \<le> 0 \<or> ey p \<le> 0 \<or> ez p \<le> 0) NonPositiveScaleFactors]"

definition exceptionViolations ::
  "int \<Rightarrow> ExceptionInfo list \<Rightarrow> ExceptionInfo \<Rightarrow> (failure + unit) list" where
  "exceptionViolations n earlier e =
     [violated (particle0 e < 0 \<or> particle0 e \<ge> n) (IllegalExceptionParticle (particle0 e)),
      violated (particle1 e < 0 \<or> particle1 e \<ge> n) (IllegalExceptionParticle (particle1 e)),
      violated (list_ex (sameUnorderedPair e) earlier)
        (MultipleExceptions (particle0 e) (particle1 e)),
      violated (exceptionSigma e < 0) NegativeExceptionSigma,
      violated (exceptionEpsilon e < 0) NegativeExceptionEpsilon]"

fun exceptionsViolations ::
  "int \<Rightarrow> ExceptionInfo list \<Rightarrow> ExceptionInfo list \<Rightarrow> (failure + unit) list" where
  "exceptionsViolations n earlier [] = []"
| "exceptionsViolations n earlier (e # es) =
     exceptionViolations n earlier e @ exceptionsViolations n (earlier @ [e]) es"

definition violationsInOrder :: "GayBerneForce \<Rightarrow> System \<Rightarrow> (failure + unit) list" where
  "violationsInOrder force system =
     [violated (getNumParticles force \<noteq> systemNumParticles system) ParticleCountMismatch,
      violated (useSwitchingFunction force \<and>
                (switchingDistance force < 0 \<or> switchingDistance force \<ge> cutoffDistance force))
        IllegalSwitchingDistance]
     @ concat (map (particleViolations (getNumParticles force)) (particles force))
     @ exceptionsViolations (getNumParticles force) [] (exceptions force)
     @ [checkPeriodicCutoff force system]"

fun firstViolation :: "(failure + unit) list \<Rightarrow> failure + unit" where
  "firstViolation [] = Inr ()"
| "firstViolation (Inl e # vs) = Inl e"
| "firstViolation (Inr _ # vs) = firstViolation vs"

text \<open>
  The relation between the local \<^verbatim>\<open>exceptions\<close> vector and the exceptions the loop has
  accepted so far: \<open>b\<close> is in the set of \<open>a\<close> exactly when one of them names the pair.
\<close>

definition seenInv :: "int \<Rightarrow> int set list \<Rightarrow> ExceptionInfo list \<Rightarrow> bool" where
  "seenInv n seen earlier \<longleftrightarrow>
     length seen = nat n \<and>
     (\<forall>a b. 0 \<le> a \<and> a < n \<longrightarrow>
        (b \<in> seen ! nat a \<longleftrightarrow>
           (\<exists>e \<in> set earlier. (particle0 e = a \<and> particle1 e = b) \<or>
                               (particle1 e = a \<and> particle0 e = b))))"

text \<open>The outcome of a check, without the value it returns.\<close>

definition passes :: "failure + 'a \<Rightarrow> failure + unit" where
  "passes r = (case r of Inl e \<Rightarrow> Inl e | Inr _ \<Rightarrow> Inr ())"

subsection \<open>Concrete inputs\<close>

text \<open>
  Three valid particles in a cubic box of edge 2, and a platform whose kernel always
  succeeds, returns the energy 2.5 and counts its executions in the state.
\<close>

definition okParticle :: ParticleInfo where
  "okParticle = \<lparr>sigma = 1, epsilon = 1, xparticle = -1, yparticle = -1,
                  rx = 1, ry = 1, rz = 1, ex = 1, ey = 1, ez = 1\<rparr>"

definition okForce :: GayBerneForce where
  "okForce = \<lparr>particles = [okParticle, okParticle, okParticle], exceptions = [],
               nonbondedMethod = NoCutoff, cutoffDistance = 1, useSwitchingFunction = False,
               switchingDistance = 0, forceGroup = 0\<rparr>"

definition badSigmaForce :: GayBerneForce where
  "badSigmaForce = okForce\<lparr>particles := [okParticle, okParticle, okParticle\<lparr>sigma := -1\<rparr>]\<rparr>"

definition selfException :: ExceptionInfo where
  "selfException = \<lparr>particle0 = 1, particle1 = 1, exceptionSigma = 1, exceptionEpsilon = 1\<rparr>"

definition cubeSystem :: System where
  "cubeSystem = \<lparr>systemNumParticles = 3,
                  defaultPeriodicBoxVectors = ((2, 0, 0), (0, 2, 0), (0, 0, 2))\<rparr>"

definition countingPlatform :: "(nat, nat) Platform" where
  "countingPlatform = \<lparr>kernelName = ''CalcGayBerneForce'',
      createKernel = (\<lambda>name w. (Inr 7, w)),
      kernelInitialize = (\<lambda>h system force w. (Inr (), w)),
      kernelExecute = (\<lambda>h includeForces includeEnergy w. (Inr 2.5, Suc w)),
      kernelCopyParametersToContext = (\<lambda>h force w. (Inr (), w)),
      systemChanged = (\<lambda>w. w)\<rparr>"

definition freshContext :: "nat ContextImpl" where
  "freshContext = \<lparr>getSystem = cubeSystem, world = 0, calls = []\<rparr>"

text \<open>
  Two exceptions for the particles 0 and 1, in either orientation; a description that
  violates the switching rule and has a negative \<open>sigma\<close>; a periodic description whose
  cutoff 1.5 exceeds half the box edge 2.
\<close>

definition pairException :: ExceptionInfo where
  "pairException = \<lparr>particle0 = 0, particle1 = 1, exceptionSigma = 1, exceptionEpsilon = 1\<rparr>"

definition swappedException :: ExceptionInfo where
  "swappedException = \<lparr>particle0 = 1, particle1 = 0, exceptionSigma = 1, exceptionEpsilon = 1\<rparr>"

definition bothBadForce :: GayBerneForce where
  "bothBadForce = badSigmaForce\<lparr>useSwitchingFunction := True, switchingDistance := 2\<rparr>"

definition periodicForce :: GayBerneForce where
  "periodicForce = okForce\<lparr>nonbondedMethod := CutoffPeriodic, cutoffDistance := 1.5\<rparr>"

text \<open>
  A platform whose operations always succeed and append their name to the state, so that
  the state shows which of them ran and in which order.
\<close>

definition recordingPlatform :: "(nat, string list) Platform" where
  "recordingPlatform = \<lparr>kernelName = ''CalcGayBerneForce'',
      createKernel = (\<lambda>name w. (Inr 7, w @ [''create''])),
      kernelInitialize = (\<lambda>h system force w. (Inr (), w @ [''initialize''])),
      kernelExecute = (\<lambda>h includeForces includeEnergy w. (Inr 2.5, w @ [''execute''])),
      kernelCopyParametersToContext = (\<lambda>h force w. (Inr (), w @ [''copy''])),
      systemChanged = (\<lambda>w. w @ [''changed''])\<rparr>"

definition recordingContext :: "string list ContextImpl" where
  "recordingContext = \<lparr>getSystem = cubeSystem, world = [], calls = []\<rparr>"

section \<open>Properties\<close>

subsection \<open>Auxiliary facts\<close>

lemmas example_defs = okParticle_def okForce_def badSigmaForce_def selfException_def
  cubeSystem_def countingPlatform_def freshContext_def pairException_def swappedException_def
  bothBadForce_def periodicForce_def

lemmas check_defs = validate_def getNumParticles_def checkParticle_def checkException_def
  checkPeriodicCutoff_def vec0_def vec1_def vec2_def

lemma checkParticles_not_switching: "checkParticles n ps \<noteq> Inl IllegalSwitchingDistance"
  by (induction ps) (auto simp: checkParticle_def split: sum.splits if_splits)

lemma checkExceptions_not_switching:
  "checkExceptions n seen es \<noteq> Inl IllegalSwitchingDistance"
  by (induction es arbitrary: seen)
     (auto simp: checkException_def Let_def split: sum.splits if_splits)

lemma checkPeriodicCutoff_not_switching:
  "checkPeriodicCutoff force system \<noteq> Inl IllegalSwitchingDistance"
  by (auto simp: checkPeriodicCutoff_def Let_def split: prod.splits if_splits)

subsection \<open>The loops and the specification's sequence of checks\<close>

lemma firstViolation_append:
  "firstViolation (vs @ ws) =
     (case firstViolation vs of Inl e \<Rightarrow> Inl e | Inr _ \<Rightarrow> firstViolation ws)"
  by (induction vs rule: firstViolation.induct) simp_all

lemma checkParticle_firstViolation:
  "checkParticle n p = firstViolation (particleViolations n p)"
  by (simp add: checkParticle_def particleViolations_def violated_def)

lemma checkParticles_firstViolation:
  "checkParticles n ps = firstViolation (concat (map (particleViolations n) ps))"
  by (induction ps)
    (simp_all add: firstViolation_append checkParticle_firstViolation split: sum.splits)

lemma seenInv_replicate: "seenInv n (replicate (nat n) {}) []"
  by (simp add: seenInv_def)

lemma seenInv_member:
  assumes "seenInv n seen earlier" "0 \<le> a" "a < n"
  shows "b \<in> seen ! nat a \<longleftrightarrow>
           (\<exists>x \<in> set earlier. (particle0 x = a \<and> particle1 x = b) \<or>
                               (particle1 x = a \<and> particle0 x = b))"
  using assms unfolding seenInv_def by simp

lemma seenInv_duplicate:
  assumes "seenInv n seen earlier" "0 \<le> particle0 e" "particle0 e < n"
    "0 \<le> particle1 e" "particle1 e < n"
  shows "(particle1 e \<in> seen ! nat (particle0 e) \<or> particle0 e \<in> seen ! nat (particle1 e))
           \<longleftrightarrow> list_ex (sameUnorderedPair e) earlier"
proof -
  have "list_ex (sameUnorderedPair e) earlier \<longleftrightarrow>
        (\<exists>x \<in> set earlier. (particle0 x = particle0 e \<and> particle1 x = particle1 e) \<or>
                            (particle1 x = particle0 e \<and> particle0 x = particle1 e))"
    unfolding list_ex_iff sameUnorderedPair_def
    by (rule bex_cong [OF refl]) (simp add: eq_commute)
  moreover have "particle0 e \<in> seen ! nat (particle1 e) \<longleftrightarrow>
      particle1 e \<in> seen ! nat (particle0 e)"
    unfolding seenInv_member [OF assms(1,2,3)] seenInv_member [OF assms(1,4,5)]
    by (rule bex_cong [OF refl]) (simp add: disj_commute conj_commute)
  ultimately show ?thesis
    using seenInv_member [OF assms(1,2,3), of "particle1 e"] by simp
qed

lemma seenInv_step:
  assumes "seenInv n seen earlier" "checkException n seen e = Inr seen'"
  shows "seenInv n seen' (earlier @ [e])"
proof -
  let ?p0 = "particle0 e" and ?p1 = "particle1 e"
  define seen1 where "seen1 = seen[nat ?p0 := insert ?p1 (seen ! nat ?p0)]"
  have range: "0 \<le> ?p0 \<and> ?p0 < n \<and> 0 \<le> ?p1 \<and> ?p1 < n"
    using assms(2) unfolding checkException_def Let_def
    by (simp split: if_splits)
  have seen': "seen' = seen1[nat ?p1 := insert ?p0 (seen1 ! nat ?p1)]"
    using assms(2) unfolding checkException_def Let_def seen1_def
    by (simp split: if_splits)
  have len: "length seen = nat n"
    using assms(1) unfolding seenInv_def by simp
  have L: "length seen' = nat n"
    by (simp add: seen' seen1_def len)
  have M: "b \<in> seen' ! nat a \<longleftrightarrow>
           (\<exists>x \<in> set (earlier @ [e]). (particle0 x = a \<and> particle1 x = b) \<or>
                               (particle1 x = a \<and> particle0 x = b))"
    if a: "0 \<le> a" "a < n" for a b
  proof -
    have lt: "nat a < length seen" "nat ?p0 < length seen" "nat ?p1 < length seen"
      using a range len by simp_all
    have eqs: "nat ?p0 = nat a \<longleftrightarrow> a = ?p0" "nat ?p1 = nat a \<longleftrightarrow> a = ?p1"
      using a range by (auto simp: eq_nat_nat_iff)
    have s1: "seen1 ! nat a = (if a = ?p0 then insert ?p1 (seen ! nat a) else seen ! nat a)"
      unfolding seen1_def using lt eqs by (simp add: nth_list_update)
    have s2: "seen' ! nat a = (if a = ?p1 then insert ?p0 (seen1 ! nat a) else seen1 ! nat a)"
      unfolding seen' using lt eqs by (simp add: nth_list_update seen1_def)
    have "b \<in> seen' ! nat a \<longleftrightarrow>
        b \<in> seen ! nat a \<or> (a = ?p0 \<and> b = ?p1) \<or> (a = ?p1 \<and> b = ?p0)"
      unfolding s2 s1 by simp blast
    also have "b \<in> seen ! nat a \<longleftrightarrow>
           (\<exists>x \<in> set earlier. (particle0 x = a \<and> particle1 x = b) \<or>
                               (particle1 x = a \<and> particle0 x = b))"
      by (rule seenInv_member [OF assms(1) a])
    finally show ?thesis
      by (simp add: bex_Un disj_commute disj_left_commute eq_commute)
  qed
  show ?thesis
    unfolding seenInv_def
  proof (intro conjI allI impI)
    show "length seen' = nat n" by (rule L)
  next
    fix a b
    assume "0 \<le> a \<and> a < n"
    then show "b \<in> seen' ! nat a \<longleftrightarrow>
           (\<exists>x \<in> set (earlier @ [e]). (particle0 x = a \<and> particle1 x = b) \<or>
                               (particle1 x = a \<and> particle0 x = b))"
      using M [of a b] by simp
  qed
qed

lemma checkException_firstViolation:
  assumes "seenInv n seen earlier"
  shows "passes (checkException n seen e) = firstViolation (exceptionViolations n earlier e)"
proof (cases "0 \<le> particle0 e \<and> particle0 e < n \<and> 0 \<le> particle1 e \<and> particle1 e < n")
  case True
  then have "(particle1 e \<in> seen ! nat (particle0 e) \<or> particle0 e \<in> seen ! nat (particle1 e))
           \<longleftrightarrow> list_ex (sameUnorderedPair e) earlier"
    using seenInv_duplicate[OF assms] by blast
  then show ?thesis using True
    by (simp add: checkException_def exceptionViolations_def violated_def passes_def Let_def)
next
  case False
  then show ?thesis
    by (auto simp: checkException_def exceptionViolations_def violated_def passes_def Let_def)
qed

lemma checkExceptions_firstViolation:
  "seenInv n seen earlier \<Longrightarrow>
   passes (checkExceptions n seen es) = firstViolation (exceptionsViolations n earlier es)"
proof (induction es arbitrary: seen earlier)
  case Nil
  then show ?case by (simp add: passes_def)
next
  case (Cons e es)
  show ?case
  proof (cases "checkException n seen e")
    case (Inl err)
    from checkException_firstViolation[OF Cons.prems, of e, symmetric] Inl show ?thesis
      by (simp add: passes_def firstViolation_append)
  next
    case (Inr seen')
    from seenInv_step[OF Cons.prems Inr] have "seenInv n seen' (earlier @ [e])" .
    from Cons.IH[OF this, symmetric] checkException_firstViolation[OF Cons.prems, of e, symmetric] Inr
    show ?thesis by (simp add: passes_def firstViolation_append)
  qed
qed


lemma firstViolation_single: "firstViolation [r] = r"
  by (cases r) simp_all

lemma firstViolation_tail:
  assumes par: "firstViolation A = P" and exc: "firstViolation B = passes E"
  shows "firstViolation (A @ B @ [c]) =
      (case P of Inl e \<Rightarrow> Inl e
       | Inr _ \<Rightarrow> (case E of Inl e \<Rightarrow> Inl e | Inr _ \<Rightarrow> c))"
  by (cases P; cases E)
     (simp_all add: firstViolation_append par exc passes_def firstViolation_single)

lemma firstViolation_skip2:
  "\<not> a \<Longrightarrow> \<not> b \<Longrightarrow>
   firstViolation (violated a e1 # violated b e2 # vs) = firstViolation vs"
  by (simp add: violated_def)

lemma validate_firstViolation:
  "validate force system = firstViolation (violationsInOrder force system)"
proof -
  let ?n = "getNumParticles force"
  let ?P = "checkParticles ?n (particles force)"
  let ?E = "checkExceptions ?n (replicate (nat ?n) {}) (exceptions force)"
  have exc: "firstViolation (exceptionsViolations ?n [] (exceptions force)) = passes ?E"
    by (rule checkExceptions_firstViolation [OF seenInv_replicate, symmetric])
  have par: "firstViolation (concat (map (particleViolations ?n) (particles force))) = ?P"
    by (rule checkParticles_firstViolation [symmetric])
  note tail = firstViolation_tail [OF par exc, of "checkPeriodicCutoff force system"]
  show ?thesis
  proof (cases "?n \<noteq> systemNumParticles system")
    case True
    have a: "validate force system = Inl ParticleCountMismatch"
      unfolding validate_def by (simp only: if_P [OF True])
    have b: "firstViolation (violationsInOrder force system) = Inl ParticleCountMismatch"
      unfolding violationsInOrder_def violated_def append_Cons
      by (simp only: if_P [OF True] firstViolation.simps)
    show ?thesis by (simp only: a b)
  next
    case count: False
    show ?thesis
    proof (cases "useSwitchingFunction force \<and>
              (switchingDistance force < 0 \<or> switchingDistance force \<ge> cutoffDistance force)")
      case True
      have a: "validate force system = Inl IllegalSwitchingDistance"
        unfolding validate_def by (simp only: if_not_P [OF count] if_P [OF True])
      have b: "firstViolation (violationsInOrder force system) = Inl IllegalSwitchingDistance"
        unfolding violationsInOrder_def violated_def append_Cons
        by (simp only: if_not_P [OF count] if_P [OF True] firstViolation.simps)
      show ?thesis by (simp only: a b)
    next
      case sw: False
      have v: "validate force system =
        (case ?P of Inl e \<Rightarrow> Inl e
         | Inr _ \<Rightarrow> (case ?E of Inl e \<Rightarrow> Inl e | Inr _ \<Rightarrow> checkPeriodicCutoff force system))"
        unfolding validate_def by (simp only: if_not_P [OF count] if_not_P [OF sw])
      have fv: "firstViolation (violationsInOrder force system) =
         firstViolation (concat (map (particleViolations ?n) (particles force))
                @ exceptionsViolations ?n [] (exceptions force)
                @ [checkPeriodicCutoff force system])"
        unfolding violationsInOrder_def append_Cons append_Nil
        by (simp only: firstViolation_skip2 [OF count sw])
      show ?thesis by (simp only: v fv tail)
    qed
  qed
qed

subsection \<open>The loop over the exceptions\<close>

lemma checkExceptions_append:
  "checkExceptions n seen (xs @ ys) =
     (case checkExceptions n seen xs of
        Inl e \<Rightarrow> Inl e
      | Inr seen' \<Rightarrow> checkExceptions n seen' ys)"
  by (induction xs arbitrary: seen) (simp_all split: sum.splits)

lemma checkException_range:
  "checkException n seen e = Inr seen' \<Longrightarrow>
   0 \<le> particle0 e \<and> particle0 e < n \<and> 0 \<le> particle1 e \<and> particle1 e < n"
  unfolding checkException_def Let_def by (simp split: if_splits)

lemma checkExceptions_range:
  "checkExceptions n seen es = Inr seen' \<Longrightarrow> e \<in> set es \<Longrightarrow>
   0 \<le> particle0 e \<and> particle0 e < n \<and> 0 \<le> particle1 e \<and> particle1 e < n"
proof (induction es arbitrary: seen)
  case Nil
  then show ?case by simp
next
  case (Cons x xs)
  from Cons.prems(1) obtain s where s: "checkException n seen x = Inr s"
    and rest: "checkExceptions n s xs = Inr seen'"
    by (cases "checkException n seen x") simp_all
  from Cons.prems(2) have "e = x \<or> e \<in> set xs" by simp
  then show ?case
  proof
    assume "e = x"
    with checkException_range [OF s] show ?thesis by simp
  next
    assume "e \<in> set xs"
    with Cons.IH [OF rest] show ?thesis by simp
  qed
qed

lemma seenInv_checkExceptions:
  "seenInv n seen earlier \<Longrightarrow> checkExceptions n seen es = Inr seen' \<Longrightarrow>
   seenInv n seen' (earlier @ es)"
proof (induction es arbitrary: seen earlier)
  case Nil
  then show ?case by simp
next
  case (Cons x xs)
  from Cons.prems(2) obtain s where s: "checkException n seen x = Inr s"
    and rest: "checkExceptions n s xs = Inr seen'"
    by (cases "checkException n seen x") simp_all
  from Cons.IH [OF seenInv_step [OF Cons.prems(1) s] rest] show ?case by simp
qed

lemma sameUnorderedPair_range:
  assumes "sameUnorderedPair x e"
    and "0 \<le> particle0 x \<and> particle0 x < n \<and> 0 \<le> particle1 x \<and> particle1 x < n"
  shows "0 \<le> particle0 e \<and> particle0 e < n \<and> 0 \<le> particle1 e \<and> particle1 e < n"
  using assms unfolding sameUnorderedPair_def by auto

lemma sameUnorderedPair_sym: "sameUnorderedPair x e \<Longrightarrow> sameUnorderedPair e x"
  unfolding sameUnorderedPair_def by auto

lemma checkException_duplicate:
  assumes inv: "seenInv n seen earlier" and x: "x \<in> set earlier"
    and same: "sameUnorderedPair x e"
    and range: "0 \<le> particle0 x \<and> particle0 x < n \<and> 0 \<le> particle1 x \<and> particle1 x < n"
  shows "checkException n seen e = Inl (MultipleExceptions (particle0 e) (particle1 e))"
proof -
  note r = sameUnorderedPair_range [OF same range]
  have "list_ex (sameUnorderedPair e) earlier"
    unfolding list_ex_iff using x sameUnorderedPair_sym [OF same] by blast
  then have "particle1 e \<in> seen ! nat (particle0 e) \<or> particle0 e \<in> seen ! nat (particle1 e)"
    using seenInv_duplicate [OF inv, of e] r by simp
  then show ?thesis
    unfolding checkException_def Let_def using r by simp
qed

lemma checkExceptions_duplicate:
  assumes ij: "i < j" "j < length es"
    and same: "sameUnorderedPair (es ! i) (es ! j)"
    and pre: "checkExceptions n (replicate (nat n) {}) (take j es) = Inr seen"
  shows "checkExceptions n (replicate (nat n) {}) es =
           Inl (MultipleExceptions (particle0 (es ! j)) (particle1 (es ! j)))"
proof -
  have split: "es = take j es @ es ! j # drop (Suc j) es"
    using ij(2) by (rule id_take_nth_drop)
  have mem: "es ! i \<in> set (take j es)"
    using ij by (metis in_set_conv_nth length_take min_less_iff_conj nth_take order_less_trans)
  have inv: "seenInv n seen (take j es)"
    using seenInv_checkExceptions [OF seenInv_replicate pre] by simp
  have dup: "checkException n seen (es ! j) =
      Inl (MultipleExceptions (particle0 (es ! j)) (particle1 (es ! j)))"
    by (rule checkException_duplicate [OF inv mem same checkExceptions_range [OF pre mem]])
  have "checkExceptions n (replicate (nat n) {}) (take j es @ es ! j # drop (Suc j) es) =
      Inl (MultipleExceptions (particle0 (es ! j)) (particle1 (es ! j)))"
    by (simp add: checkExceptions_append pre dup)
  with split show ?thesis by simp
qed

lemma checkExceptions_prefix:
  "checkExceptions n seen es = Inr seen' \<Longrightarrow>
   \<exists>s. checkExceptions n seen (take j es) = Inr s"
proof -
  assume a: "checkExceptions n seen es = Inr seen'"
  have "checkExceptions n seen (take j es @ drop j es) = Inr seen'"
    using a by simp
  then show ?thesis
    unfolding checkExceptions_append
    by (cases "checkExceptions n seen (take j es)") simp_all
qed

lemma checkExceptions_no_duplicate:
  assumes "i < j" "j < length es" "sameUnorderedPair (es ! i) (es ! j)"
  shows "checkExceptions n (replicate (nat n) {}) es \<noteq> Inr seen'"
proof
  assume ok: "checkExceptions n (replicate (nat n) {}) es = Inr seen'"
  from checkExceptions_prefix [OF ok, of j]
  obtain s where "checkExceptions n (replicate (nat n) {}) (take j es) = Inr s" ..
  from checkExceptions_duplicate [OF assms this] ok show False by simp
qed

lemma validate_Inr_exceptions:
  assumes "validate force system = Inr ()"
  shows "\<exists>s. checkExceptions (getNumParticles force)
               (replicate (nat (getNumParticles force)) {}) (exceptions force) = Inr s"
proof (cases "checkExceptions (getNumParticles force)
               (replicate (nat (getNumParticles force)) {}) (exceptions force)")
  case (Inl e)
  with assms show ?thesis
    unfolding validate_def by (simp split: if_splits sum.splits)
next
  case (Inr s)
  then show ?thesis by simp
qed

lemma validate_after_checks:
  assumes "getNumParticles force = systemNumParticles system"
    and "\<not> (useSwitchingFunction force \<and>
            (switchingDistance force < 0 \<or> switchingDistance force \<ge> cutoffDistance force))"
    and "checkParticles (getNumParticles force) (particles force) = Inr ()"
  shows "validate force system =
     (case checkExceptions (getNumParticles force)
             (replicate (nat (getNumParticles force)) {}) (exceptions force) of
        Inl e \<Rightarrow> Inl e
      | Inr _ \<Rightarrow> checkPeriodicCutoff force system)"
proof -
  have c: "\<not> getNumParticles force \<noteq> systemNumParticles system"
    using assms(1) by simp
  show ?thesis
    unfolding validate_def
    by (simp only: if_not_P [OF c] if_not_P [OF assms(2)] assms(3) sum.case)
qed

subsection \<open>What the checks read\<close>

lemma checkPeriodicCutoff_nonperiodic:
  "nonbondedMethod force \<noteq> CutoffPeriodic \<Longrightarrow> checkPeriodicCutoff force system = Inr ()"
  unfolding checkPeriodicCutoff_def by simp

lemma checkPeriodicCutoff_cong:
  assumes "nonbondedMethod f = nonbondedMethod g" and "cutoffDistance f = cutoffDistance g"
    and "defaultPeriodicBoxVectors s = defaultPeriodicBoxVectors t"
  shows "checkPeriodicCutoff f s = checkPeriodicCutoff g t"
  unfolding checkPeriodicCutoff_def assms by simp

lemma validate_cong:
  assumes "particles f = particles g" and "exceptions f = exceptions g"
    and "systemNumParticles s = systemNumParticles t"
    and "(useSwitchingFunction f \<and>
           (switchingDistance f < 0 \<or> switchingDistance f \<ge> cutoffDistance f)) =
         (useSwitchingFunction g \<and>
           (switchingDistance g < 0 \<or> switchingDistance g \<ge> cutoffDistance g))"
    and "checkPeriodicCutoff f s = checkPeriodicCutoff g t"
  shows "validate f s = validate g t"
  unfolding validate_def getNumParticles_def assms by simp

subsection \<open>The checks\<close>

text \<open>
  Claim C3, as amended. The checks do not compare the two particle indices of an exception
  with each other. Every exception of a description that passes the checks references two
  valid particle indices (each in \<open>0..<numParticles\<close>); they need not be distinct.
\<close>

theorem exception_indices_valid:
  assumes "validate force system = Inr ()" and "e \<in> set (exceptions force)"
  shows "0 \<le> particle0 e \<and> particle0 e < getNumParticles force \<and>
         0 \<le> particle1 e \<and> particle1 e < getNumParticles force"
proof -
  from validate_Inr_exceptions [OF assms(1)] obtain s where
    "checkExceptions (getNumParticles force)
       (replicate (nat (getNumParticles force)) {}) (exceptions force) = Inr s" ..
  from checkExceptions_range [OF this assms(2)] show ?thesis .
qed

text \<open>The theorem at a description whose only exception is (1, 1).\<close>

theorem exception_indices_valid_witness:
  "0 \<le> particle0 selfException \<and>
   particle0 selfException < getNumParticles (okForce\<lparr>exceptions := [selfException]\<rparr>) \<and>
   0 \<le> particle1 selfException \<and>
   particle1 selfException < getNumParticles (okForce\<lparr>exceptions := [selfException]\<rparr>)"
proof -
  have v: "validate (okForce\<lparr>exceptions := [selfException]\<rparr>) cubeSystem = Inr ()"
    by (simp add: example_defs check_defs eval_nat_numeral)
  have m: "selfException \<in> set (exceptions (okForce\<lparr>exceptions := [selfException]\<rparr>))"
    by simp
  show ?thesis
    by (rule exception_indices_valid [OF v m])
qed

text \<open>
  Claim C3 as it is stated fails: a valid description of three particles with the single
  exception (1, 1), both indices equal and in range, passes the checks.
\<close>

theorem self_exception_counterexample:
  "particle0 selfException = particle1 selfException \<and>
   0 \<le> particle0 selfException \<and>
   particle0 selfException < getNumParticles (okForce\<lparr>exceptions := [selfException]\<rparr>) \<and>
   validate (okForce\<lparr>exceptions := [selfException]\<rparr>) cubeSystem = Inr ()"
  by (simp add: example_defs check_defs eval_nat_numeral)

text \<open>
  Claim C4. The checks report the first violation of the fixed order: the particle
  count, the switching distance, the particles in index order (x particle, y particle,
  sigma, epsilon, radii, scale factors), the exceptions in declaration order (first index,
  second index, duplicate pair, sigma, epsilon), the periodic cutoff last. In particular
  a description that violates the switching rule reports that violation whatever its
  particles are.
\<close>

theorem validate_reports_first_violation:
  "validate force system = firstViolation (violationsInOrder force system) \<and>
   (getNumParticles force = systemNumParticles system \<longrightarrow>
    useSwitchingFunction force \<longrightarrow>
    switchingDistance force < 0 \<or> switchingDistance force \<ge> cutoffDistance force \<longrightarrow>
    validate force system = Inl IllegalSwitchingDistance)"
proof
  show "validate force system = firstViolation (violationsInOrder force system)"
    by (rule validate_firstViolation)
next
  show "getNumParticles force = systemNumParticles system \<longrightarrow>
    useSwitchingFunction force \<longrightarrow>
    switchingDistance force < 0 \<or> switchingDistance force \<ge> cutoffDistance force \<longrightarrow>
    validate force system = Inl IllegalSwitchingDistance"
    unfolding validate_def by simp
qed

text \<open>The theorem at a description that violates both the switching rule and the sigma
  rule.\<close>

theorem validate_reports_first_violation_witness:
  "sigma (particles bothBadForce ! 2) < 0 \<and>
   switchingDistance bothBadForce \<ge> cutoffDistance bothBadForce \<and>
   validate bothBadForce cubeSystem = Inl IllegalSwitchingDistance \<and>
   firstViolation (violationsInOrder bothBadForce cubeSystem) = Inl IllegalSwitchingDistance"
proof -
  have c: "getNumParticles bothBadForce = systemNumParticles cubeSystem"
    by (simp add: example_defs getNumParticles_def)
  have u: "useSwitchingFunction bothBadForce" by (simp add: example_defs)
  have s: "switchingDistance bothBadForce < 0 \<or>
           switchingDistance bothBadForce \<ge> cutoffDistance bothBadForce"
    by (simp add: example_defs)
  have g: "sigma (particles bothBadForce ! 2) < 0"
    "switchingDistance bothBadForce \<ge> cutoffDistance bothBadForce"
    by (simp_all add: example_defs)
  note t = validate_reports_first_violation [of bothBadForce cubeSystem]
  have v: "validate bothBadForce cubeSystem = Inl IllegalSwitchingDistance"
    using t [THEN conjunct2] c u s by blast
  have f: "firstViolation (violationsInOrder bothBadForce cubeSystem) =
      Inl IllegalSwitchingDistance"
    using t [THEN conjunct1, symmetric] v by simp
  show ?thesis
    using g v f by simp
qed

text \<open>
  Claim C6. A description in which exception \<open>j\<close> names the same unordered pair as an
  earlier exception \<open>i\<close>, in either orientation, never passes the checks; and when the
  checks before exception \<open>j\<close> pass, what is reported is the duplicate, for the pair of
  exception \<open>j\<close>.
\<close>

theorem duplicate_exception_rejected:
  assumes "i < j" and "j < length (exceptions force)"
    and "sameUnorderedPair (exceptions force ! i) (exceptions force ! j)"
  shows "validate force system \<noteq> Inr () \<and>
    (getNumParticles force = systemNumParticles system \<longrightarrow>
     \<not> (useSwitchingFunction force \<and>
        (switchingDistance force < 0 \<or> switchingDistance force \<ge> cutoffDistance force)) \<longrightarrow>
     checkParticles (getNumParticles force) (particles force) = Inr () \<longrightarrow>
     checkExceptions (getNumParticles force) (replicate (nat (getNumParticles force)) {})
        (take j (exceptions force)) = Inr seen \<longrightarrow>
     validate force system =
       Inl (MultipleExceptions (particle0 (exceptions force ! j))
              (particle1 (exceptions force ! j))))"
proof
  show "validate force system \<noteq> Inr ()"
  proof
    assume "validate force system = Inr ()"
    from validate_Inr_exceptions [OF this] obtain s where
      "checkExceptions (getNumParticles force)
         (replicate (nat (getNumParticles force)) {}) (exceptions force) = Inr s" ..
    with checkExceptions_no_duplicate [OF assms] show False by simp
  qed
next
  show "getNumParticles force = systemNumParticles system \<longrightarrow>
     \<not> (useSwitchingFunction force \<and>
        (switchingDistance force < 0 \<or> switchingDistance force \<ge> cutoffDistance force)) \<longrightarrow>
     checkParticles (getNumParticles force) (particles force) = Inr () \<longrightarrow>
     checkExceptions (getNumParticles force) (replicate (nat (getNumParticles force)) {})
        (take j (exceptions force)) = Inr seen \<longrightarrow>
     validate force system =
       Inl (MultipleExceptions (particle0 (exceptions force ! j))
              (particle1 (exceptions force ! j)))"
  proof (intro impI)
    assume count: "getNumParticles force = systemNumParticles system"
      and sw: "\<not> (useSwitchingFunction force \<and>
        (switchingDistance force < 0 \<or> switchingDistance force \<ge> cutoffDistance force))"
      and par: "checkParticles (getNumParticles force) (particles force) = Inr ()"
      and pre: "checkExceptions (getNumParticles force)
        (replicate (nat (getNumParticles force)) {}) (take j (exceptions force)) = Inr seen"
    show "validate force system =
       Inl (MultipleExceptions (particle0 (exceptions force ! j))
              (particle1 (exceptions force ! j)))"
      unfolding validate_after_checks [OF count sw par]
      by (simp add: checkExceptions_duplicate [OF assms pre])
  qed
qed

text \<open>The theorem at the exceptions (0, 1), (1, 0) and at (0, 1), (0, 1).\<close>

theorem duplicate_exception_rejected_witness:
  "validate (okForce\<lparr>exceptions := [pairException, swappedException]\<rparr>) cubeSystem
     = Inl (MultipleExceptions 1 0) \<and>
   validate (okForce\<lparr>exceptions := [pairException, pairException]\<rparr>) cubeSystem
     = Inl (MultipleExceptions 0 1)"
proof -
  let ?f = "okForce\<lparr>exceptions := [pairException, swappedException]\<rparr>"
  let ?g = "okForce\<lparr>exceptions := [pairException, pairException]\<rparr>"
  have ij: "(0::nat) < 1" "1 < length (exceptions ?f)" "1 < length (exceptions ?g)"
    by simp_all
  have same: "sameUnorderedPair (exceptions ?f ! 0) (exceptions ?f ! 1)"
    "sameUnorderedPair (exceptions ?g ! 0) (exceptions ?g ! 1)"
    by (simp_all add: sameUnorderedPair_def example_defs)
  have count: "getNumParticles ?f = systemNumParticles cubeSystem"
    "getNumParticles ?g = systemNumParticles cubeSystem"
    by (simp_all add: example_defs getNumParticles_def)
  have sw: "\<not> (useSwitchingFunction ?f \<and>
        (switchingDistance ?f < 0 \<or> switchingDistance ?f \<ge> cutoffDistance ?f))"
    "\<not> (useSwitchingFunction ?g \<and>
        (switchingDistance ?g < 0 \<or> switchingDistance ?g \<ge> cutoffDistance ?g))"
    by (simp_all add: example_defs)
  have par: "checkParticles (getNumParticles ?f) (particles ?f) = Inr ()"
    "checkParticles (getNumParticles ?g) (particles ?g) = Inr ()"
    by (simp_all add: example_defs getNumParticles_def checkParticle_def)
  have pre: "checkExceptions (getNumParticles ?f) (replicate (nat (getNumParticles ?f)) {})
        (take 1 (exceptions ?f)) = Inr [{1}, {0}, {}]"
    "checkExceptions (getNumParticles ?g) (replicate (nat (getNumParticles ?g)) {})
        (take 1 (exceptions ?g)) = Inr [{1}, {0}, {}]"
    by (simp_all add: example_defs getNumParticles_def checkException_def eval_nat_numeral)
  show ?thesis
    using duplicate_exception_rejected [OF ij(1) ij(2) same(1), of cubeSystem "[{1}, {0}, {}]"]
      duplicate_exception_rejected [OF ij(1) ij(3) same(2), of cubeSystem "[{1}, {0}, {}]"]
      count sw par pre
    by (simp add: example_defs)
qed

text \<open>
  Claim C7. Under \<open>CutoffPeriodic\<close>, a description that passes all earlier checks fails
  exactly when the cutoff exceeds half of the first component of the first box vector,
  of the second component of the second or of the third component of the third; under
  the other two methods the outcome does not depend on the box.
\<close>

theorem periodic_cutoff_check:
  "(nonbondedMethod force = CutoffPeriodic \<longrightarrow>
    getNumParticles force = systemNumParticles system \<longrightarrow>
    \<not> (useSwitchingFunction force \<and>
       (switchingDistance force < 0 \<or> switchingDistance force \<ge> cutoffDistance force)) \<longrightarrow>
    checkParticles (getNumParticles force) (particles force) = Inr () \<longrightarrow>
    checkExceptions (getNumParticles force) (replicate (nat (getNumParticles force)) {})
       (exceptions force) = Inr seen \<longrightarrow>
    validate force system =
      (if cutoffDistance force > 0.5 * vec0 (fst (defaultPeriodicBoxVectors system)) \<or>
          cutoffDistance force > 0.5 * vec1 (fst (snd (defaultPeriodicBoxVectors system))) \<or>
          cutoffDistance force > 0.5 * vec2 (snd (snd (defaultPeriodicBoxVectors system)))
       then Inl CutoffTooLarge else Inr ())) \<and>
   (nonbondedMethod force \<noteq> CutoffPeriodic \<longrightarrow>
    validate force (system\<lparr>defaultPeriodicBoxVectors := box\<rparr>) = validate force system)"
proof
  show "nonbondedMethod force = CutoffPeriodic \<longrightarrow>
    getNumParticles force = systemNumParticles system \<longrightarrow>
    \<not> (useSwitchingFunction force \<and>
       (switchingDistance force < 0 \<or> switchingDistance force \<ge> cutoffDistance force)) \<longrightarrow>
    checkParticles (getNumParticles force) (particles force) = Inr () \<longrightarrow>
    checkExceptions (getNumParticles force) (replicate (nat (getNumParticles force)) {})
       (exceptions force) = Inr seen \<longrightarrow>
    validate force system =
      (if cutoffDistance force > 0.5 * vec0 (fst (defaultPeriodicBoxVectors system)) \<or>
          cutoffDistance force > 0.5 * vec1 (fst (snd (defaultPeriodicBoxVectors system))) \<or>
          cutoffDistance force > 0.5 * vec2 (snd (snd (defaultPeriodicBoxVectors system)))
       then Inl CutoffTooLarge else Inr ())"
  proof (intro impI)
    assume per: "nonbondedMethod force = CutoffPeriodic"
      and count: "getNumParticles force = systemNumParticles system"
      and sw: "\<not> (useSwitchingFunction force \<and>
        (switchingDistance force < 0 \<or> switchingDistance force \<ge> cutoffDistance force))"
      and par: "checkParticles (getNumParticles force) (particles force) = Inr ()"
      and exc: "checkExceptions (getNumParticles force)
        (replicate (nat (getNumParticles force)) {}) (exceptions force) = Inr seen"
    have "validate force system = checkPeriodicCutoff force system"
      unfolding validate_after_checks [OF count sw par] by (simp add: exc)
    then show "validate force system =
      (if cutoffDistance force > 0.5 * vec0 (fst (defaultPeriodicBoxVectors system)) \<or>
          cutoffDistance force > 0.5 * vec1 (fst (snd (defaultPeriodicBoxVectors system))) \<or>
          cutoffDistance force > 0.5 * vec2 (snd (snd (defaultPeriodicBoxVectors system)))
       then Inl CutoffTooLarge else Inr ())"
      using per by (simp add: checkPeriodicCutoff_def Let_def split: prod.splits)
  qed
next
  show "nonbondedMethod force \<noteq> CutoffPeriodic \<longrightarrow>
    validate force (system\<lparr>defaultPeriodicBoxVectors := box\<rparr>) = validate force system"
  proof
    assume "nonbondedMethod force \<noteq> CutoffPeriodic"
    then have "checkPeriodicCutoff force (system\<lparr>defaultPeriodicBoxVectors := box\<rparr>) =
        checkPeriodicCutoff force system"
      by (simp add: checkPeriodicCutoff_nonperiodic)
    then show "validate force (system\<lparr>defaultPeriodicBoxVectors := box\<rparr>) =
        validate force system"
      by (intro validate_cong) simp_all
  qed
qed

text \<open>The theorem at box edges (2, 2, 2) with cutoff 1.5, and at a description without
  cutoff whose box is replaced by a degenerate one.\<close>

theorem periodic_cutoff_check_witness:
  "validate periodicForce cubeSystem = Inl CutoffTooLarge \<and>
   validate okForce (cubeSystem\<lparr>defaultPeriodicBoxVectors := ((0, 0, 0), (0, 0, 0), (0, 0, 0))\<rparr>)
     = validate okForce cubeSystem"
proof -
  have per: "nonbondedMethod periodicForce = CutoffPeriodic"
    "nonbondedMethod okForce \<noteq> CutoffPeriodic"
    by (simp_all add: example_defs)
  have count: "getNumParticles periodicForce = systemNumParticles cubeSystem"
    by (simp add: example_defs getNumParticles_def)
  have sw: "\<not> (useSwitchingFunction periodicForce \<and>
        (switchingDistance periodicForce < 0 \<or>
         switchingDistance periodicForce \<ge> cutoffDistance periodicForce))"
    by (simp add: example_defs)
  have par: "checkParticles (getNumParticles periodicForce) (particles periodicForce) = Inr ()"
    by (simp add: example_defs getNumParticles_def checkParticle_def)
  have exc: "checkExceptions (getNumParticles periodicForce)
        (replicate (nat (getNumParticles periodicForce)) {}) (exceptions periodicForce)
        = Inr [{}, {}, {}]"
    by (simp add: example_defs getNumParticles_def eval_nat_numeral)
  have box: "cutoffDistance periodicForce >
      0.5 * vec0 (fst (defaultPeriodicBoxVectors cubeSystem))"
    by (simp add: example_defs vec0_def)
  show ?thesis
    using periodic_cutoff_check [where force = periodicForce and system = cubeSystem
        and seen = "[{}, {}, {}]"]
      periodic_cutoff_check [where force = okForce and system = cubeSystem
        and box = "((0, 0, 0), (0, 0, 0), (0, 0, 0))"]
      per count sw par exc box
    by simp
qed

text \<open>
  Claim C8. When the particle counts agree, the switching distance violation is reported
  exactly when switching is enabled and the switching distance is negative or not below
  the cutoff; when switching is disabled, the outcome does not depend on the switching
  distance.
\<close>

theorem switching_distance_check:
  "(getNumParticles force = systemNumParticles system \<longrightarrow>
     (validate force system = Inl IllegalSwitchingDistance \<longleftrightarrow>
      useSwitchingFunction force \<and>
      (switchingDistance force < 0 \<or> switchingDistance force \<ge> cutoffDistance force))) \<and>
   (\<not> useSwitchingFunction force \<longrightarrow>
     validate (force\<lparr>switchingDistance := s\<rparr>) system = validate force system)"
proof
  show "getNumParticles force = systemNumParticles system \<longrightarrow>
     (validate force system = Inl IllegalSwitchingDistance \<longleftrightarrow>
      useSwitchingFunction force \<and>
      (switchingDistance force < 0 \<or> switchingDistance force \<ge> cutoffDistance force))"
  proof
    assume count: "getNumParticles force = systemNumParticles system"
    show "validate force system = Inl IllegalSwitchingDistance \<longleftrightarrow>
      useSwitchingFunction force \<and>
      (switchingDistance force < 0 \<or> switchingDistance force \<ge> cutoffDistance force)"
    proof (cases "useSwitchingFunction force \<and>
      (switchingDistance force < 0 \<or> switchingDistance force \<ge> cutoffDistance force)")
      case True
      then show ?thesis unfolding validate_def using count by simp
    next
      case False
      have c: "\<not> getNumParticles force \<noteq> systemNumParticles system"
        using count by simp
      let ?n = "getNumParticles force"
      let ?P = "checkParticles ?n (particles force)"
      let ?E = "checkExceptions ?n (replicate (nat ?n) {}) (exceptions force)"
      have v: "validate force system =
        (case ?P of Inl e \<Rightarrow> Inl e
         | Inr _ \<Rightarrow> (case ?E of Inl e \<Rightarrow> Inl e | Inr _ \<Rightarrow> checkPeriodicCutoff force system))"
        unfolding validate_def by (simp only: if_not_P [OF c] if_not_P [OF False])
      have "validate force system \<noteq> Inl IllegalSwitchingDistance"
      proof (cases ?P)
        case (Inl e)
        with checkParticles_not_switching [of ?n "particles force"] show ?thesis
          unfolding v by simp
      next
        case P: (Inr u)
        show ?thesis
        proof (cases ?E)
          case (Inl e)
          with P checkExceptions_not_switching [of ?n "replicate (nat ?n) {}" "exceptions force"]
          show ?thesis unfolding v by simp
        next
          case (Inr seen)
          with P checkPeriodicCutoff_not_switching [of force system]
          show ?thesis unfolding v by simp
        qed
      qed
      with False show ?thesis by simp
    qed
  qed
next
  show "\<not> useSwitchingFunction force \<longrightarrow>
     validate (force\<lparr>switchingDistance := s\<rparr>) system = validate force system"
  proof
    assume "\<not> useSwitchingFunction force"
    then show "validate (force\<lparr>switchingDistance := s\<rparr>) system = validate force system"
      by (intro validate_cong checkPeriodicCutoff_cong) simp_all
  qed
qed

text \<open>The theorem at a description with switching distance 2 and cutoff 1, and at one
  with switching disabled and switching distance -5.\<close>

theorem switching_distance_check_witness:
  "validate bothBadForce cubeSystem = Inl IllegalSwitchingDistance \<and>
   validate (okForce\<lparr>switchingDistance := -5\<rparr>) cubeSystem = validate okForce cubeSystem"
proof -
  have c: "getNumParticles bothBadForce = systemNumParticles cubeSystem"
    by (simp add: example_defs getNumParticles_def)
  have u: "useSwitchingFunction bothBadForce \<and>
      (switchingDistance bothBadForce < 0 \<or>
       switchingDistance bothBadForce \<ge> cutoffDistance bothBadForce)"
    by (simp add: example_defs)
  have n: "\<not> useSwitchingFunction okForce" by (simp add: example_defs)
  show ?thesis
    using switching_distance_check [where force = bothBadForce and system = cubeSystem]
      switching_distance_check [where force = okForce and s = "-5" and system = cubeSystem]
      c u n
    by simp
qed

text \<open>
  Claim C10. When the method is not \<open>CutoffPeriodic\<close> and switching is disabled, the
  outcome of the checks does not depend on the cutoff distance: a negative cutoff is
  accepted wherever any other cutoff is.
\<close>

theorem cutoffDistance_unchecked:
  assumes "nonbondedMethod force \<noteq> CutoffPeriodic" and "\<not> useSwitchingFunction force"
  shows "validate (force\<lparr>cutoffDistance := c\<rparr>) system = validate force system"
proof -
  have "checkPeriodicCutoff (force\<lparr>cutoffDistance := c\<rparr>) system =
      checkPeriodicCutoff force system"
    using assms(1) by (simp add: checkPeriodicCutoff_nonperiodic)
  then show ?thesis
    using assms(2) by (intro validate_cong) simp_all
qed

text \<open>The theorem at a valid description whose cutoff is set to -1.\<close>

theorem cutoffDistance_unchecked_witness:
  "validate (okForce\<lparr>cutoffDistance := -1\<rparr>) cubeSystem = Inr ()"
proof -
  have m: "nonbondedMethod okForce \<noteq> CutoffPeriodic" by (simp add: example_defs)
  have u: "\<not> useSwitchingFunction okForce" by (simp add: example_defs)
  have v: "validate okForce cubeSystem = Inr ()"
    by (simp add: example_defs check_defs)
  show ?thesis
    using cutoffDistance_unchecked [OF m u, where c = "-1" and system = cubeSystem] v
    by simp
qed

subsection \<open>\<^verbatim>\<open>initialize\<close>\<close>

text \<open>
  Claim C1, as amended. \<^verbatim>\<open>initialize\<close> creates the kernel in its first statement, before
  any check. For every description that violates one of the checks, \<^verbatim>\<open>initialize\<close> fails
  with that violation after the kernel handle has been created and stored in the object,
  and before the kernel's own \<^verbatim>\<open>initialize\<close> is called: the only call made is
  \<^verbatim>\<open>createKernel\<close>, and the state is the one \<^verbatim>\<open>createKernel\<close> left.
\<close>

theorem initialize_fails_after_createKernel:
  assumes "validate (owner impl) (getSystem context) = Inl e"
    and "createKernel platform (kernelName platform) (world context) = (Inr h, w)"
  shows "initialize platform impl context =
           (Inl e, impl\<lparr>kernel := Some h\<rparr>,
            context\<lparr>world := w, calls := calls context @ [CreateKernel (kernelName platform)]\<rparr>)"
  using assms by (simp add: initialize_def called_def)

text \<open>The theorem at three particles of which particle 2 has \<open>sigma = -1\<close>.\<close>

theorem initialize_fails_after_createKernel_witness:
  "initialize countingPlatform \<lparr>owner = badSigmaForce, kernel = None\<rparr> freshContext =
     (Inl NegativeParticleSigma, \<lparr>owner = badSigmaForce, kernel = Some 7\<rparr>,
      \<lparr>getSystem = cubeSystem, world = 0, calls = [CreateKernel ''CalcGayBerneForce'']\<rparr>)"
proof -
  have v: "validate (owner \<lparr>owner = badSigmaForce, kernel = None :: nat option\<rparr>)
             (getSystem freshContext) = Inl NegativeParticleSigma"
    by (simp add: example_defs check_defs)
  have c: "createKernel countingPlatform (kernelName countingPlatform) (world freshContext)
             = (Inr 7, 0)"
    by (simp add: example_defs)
  show ?thesis
    using initialize_fails_after_createKernel [OF v c] by (simp add: example_defs)
qed

text \<open>
  Claim C1 as it is stated fails: with three particles of which particle 2 has
  \<open>sigma = -1\<close>, the failed \<^verbatim>\<open>initialize\<close> leaves the object holding the kernel handle 7
  that \<^verbatim>\<open>createKernel\<close> returned, and \<^verbatim>\<open>createKernel\<close> has been called.
\<close>

theorem initialize_holds_kernel_counterexample:
  "validate badSigmaForce cubeSystem = Inl NegativeParticleSigma \<and>
   kernel (fst (snd (initialize countingPlatform \<lparr>owner = badSigmaForce, kernel = None\<rparr>
                       freshContext))) = Some 7 \<and>
   calls (snd (snd (initialize countingPlatform \<lparr>owner = badSigmaForce, kernel = None\<rparr>
                       freshContext))) = [CreateKernel ''CalcGayBerneForce'']"
  by (simp add: initialize_def called_def example_defs check_defs)

subsection \<open>\<^verbatim>\<open>updateParametersInContext\<close>\<close>

text \<open>
  Claim C2, as amended. \<^verbatim>\<open>updateParametersInContext\<close> checks nothing itself. For every
  object holding a kernel and every description, valid or not, it first calls the kernel's
  \<^verbatim>\<open>copyParametersToContext\<close>; it fails exactly when that call fails, with the kernel's
  failure, and otherwise goes on to \<^verbatim>\<open>systemChanged\<close>.
\<close>

theorem updateParametersInContext_unvalidated:
  assumes "kernel impl = Some h"
  shows "fst (updateParametersInContext platform impl context) =
           fst (kernelCopyParametersToContext platform h (owner impl) (world context)) \<and>
         calls (snd (snd (updateParametersInContext platform impl context))) =
           calls context @ KernelCopyParametersToContext #
             (case fst (kernelCopyParametersToContext platform h (owner impl) (world context)) of
                Inl e \<Rightarrow> [] | Inr u \<Rightarrow> [SystemChanged])"
  using assms
  by (simp add: updateParametersInContext_def called_def Let_def split: prod.splits sum.splits)

text \<open>The theorem at a description whose particle 2 has \<open>sigma = -1\<close>.\<close>

theorem updateParametersInContext_unvalidated_witness:
  "fst (updateParametersInContext countingPlatform \<lparr>owner = badSigmaForce, kernel = Some 7\<rparr>
          freshContext) = Inr () \<and>
   calls (snd (snd (updateParametersInContext countingPlatform
          \<lparr>owner = badSigmaForce, kernel = Some 7\<rparr> freshContext))) =
     [KernelCopyParametersToContext, SystemChanged]"
proof -
  have k: "kernel \<lparr>owner = badSigmaForce, kernel = Some (7::nat)\<rparr> = Some 7" by simp
  show ?thesis
    using updateParametersInContext_unvalidated [OF k, of countingPlatform freshContext]
    by (simp add: example_defs)
qed

text \<open>
  Claim C2 as it is stated fails: \<open>badSigmaForce\<close> is rejected by the checks of
  \<^verbatim>\<open>initialize\<close>, yet \<^verbatim>\<open>updateParametersInContext\<close> succeeds on it and the kernel's
  parameters are refreshed.
\<close>

theorem updateParametersInContext_counterexample:
  "validate badSigmaForce cubeSystem = Inl NegativeParticleSigma \<and>
   updateParametersInContext countingPlatform \<lparr>owner = badSigmaForce, kernel = Some 7\<rparr>
       freshContext =
     (Inr (), \<lparr>owner = badSigmaForce, kernel = Some 7\<rparr>,
      \<lparr>getSystem = cubeSystem, world = 0,
       calls = [KernelCopyParametersToContext, SystemChanged]\<rparr>)"
  by (simp add: updateParametersInContext_def called_def example_defs check_defs)

text \<open>
  Claim C9. On an object holding a kernel, whenever the kernel's
  \<^verbatim>\<open>copyParametersToContext\<close> succeeds, \<^verbatim>\<open>updateParametersInContext\<close> succeeds, leaves
  the object as it was (the same kernel handle in it) and makes exactly two calls: the
  kernel's \<^verbatim>\<open>copyParametersToContext\<close> and then \<^verbatim>\<open>systemChanged\<close>, once, applied to the
  state the refresh left. A call succeeds only if the kernel's refresh did, so this
  describes every successful call.
\<close>

theorem updateParametersInContext_success:
  assumes "kernel impl = Some h"
  shows "(kernelCopyParametersToContext platform h (owner impl) (world context) = (Inr u, w) \<longrightarrow>
            updateParametersInContext platform impl context =
              (Inr (), impl,
               context\<lparr>world := systemChanged platform w,
                 calls := calls context @ [KernelCopyParametersToContext, SystemChanged]\<rparr>)) \<and>
         (fst (updateParametersInContext platform impl context) = Inr () \<longrightarrow>
            fst (kernelCopyParametersToContext platform h (owner impl) (world context)) = Inr ())"
proof
  show "kernelCopyParametersToContext platform h (owner impl) (world context) = (Inr u, w) \<longrightarrow>
            updateParametersInContext platform impl context =
              (Inr (), impl,
               context\<lparr>world := systemChanged platform w,
                 calls := calls context @ [KernelCopyParametersToContext, SystemChanged]\<rparr>)"
    using assms by (simp add: updateParametersInContext_def called_def Let_def)
next
  show "fst (updateParametersInContext platform impl context) = Inr () \<longrightarrow>
            fst (kernelCopyParametersToContext platform h (owner impl) (world context)) = Inr ()"
    using assms
    by (simp add: updateParametersInContext_def called_def Let_def split: prod.splits sum.splits)
qed

text \<open>
  The theorem at the valid description \<open>okForce\<close>, on the platform that records its
  operations: the run succeeds, and the state shows the refresh followed by the
  notification.
\<close>

theorem updateParametersInContext_success_witness:
  "updateParametersInContext recordingPlatform \<lparr>owner = okForce, kernel = Some 7\<rparr>
       recordingContext =
     (Inr (), \<lparr>owner = okForce, kernel = Some 7\<rparr>,
      \<lparr>getSystem = cubeSystem, world = [''copy'', ''changed''],
       calls = [KernelCopyParametersToContext, SystemChanged]\<rparr>) \<and>
   fst (kernelCopyParametersToContext recordingPlatform 7
          (owner \<lparr>owner = okForce, kernel = Some (7::nat)\<rparr>) (world recordingContext)) = Inr ()"
proof -
  have k: "kernel \<lparr>owner = okForce, kernel = Some (7::nat)\<rparr> = Some 7" by simp
  have r: "kernelCopyParametersToContext recordingPlatform 7
             (owner \<lparr>owner = okForce, kernel = Some (7::nat)\<rparr>) (world recordingContext)
           = (Inr (), [''copy''])"
    by (simp add: recordingPlatform_def recordingContext_def)
  note t = updateParametersInContext_success [OF k, of recordingPlatform recordingContext
      "()" "[''copy'']"]
  have run: "updateParametersInContext recordingPlatform \<lparr>owner = okForce, kernel = Some 7\<rparr>
       recordingContext =
     (Inr (), \<lparr>owner = okForce, kernel = Some 7\<rparr>,
      \<lparr>getSystem = cubeSystem, world = [''copy'', ''changed''],
       calls = [KernelCopyParametersToContext, SystemChanged]\<rparr>)"
    using t [THEN conjunct1] r by (simp add: recordingPlatform_def recordingContext_def)
  have "fst (kernelCopyParametersToContext recordingPlatform 7
          (owner \<lparr>owner = okForce, kernel = Some (7::nat)\<rparr>) (world recordingContext)) = Inr ()"
    using t [THEN conjunct2] run by simp
  with run show ?thesis by simp
qed

subsection \<open>\<^verbatim>\<open>calcForcesAndEnergy\<close>\<close>

lemma groupBit_test:
  "groups AND groupBit g \<noteq> 0 \<longleftrightarrow> bit groups (nat g)"
  by (simp add: groupBit_def bit_iff_and_push_bit_not_eq_0)

text \<open>
  Claim C5. For a force group in 0..31: when bit \<open>forceGroup\<close> of the mask is not set,
  \<^verbatim>\<open>calcForcesAndEnergy\<close> returns 0 whatever the two flags are and leaves the object and
  the context (its state and its log of calls) as they were, so the kernel is not called;
  when the bit is set and the object holds a kernel, it returns what the kernel's
  \<^verbatim>\<open>execute\<close> returns, called once with the two flags.
\<close>

theorem calcForcesAndEnergy_group_gate:
  assumes "0 \<le> forceGroup (owner impl)" and "forceGroup (owner impl) < 32"
  shows "(\<not> bit groups (nat (forceGroup (owner impl))) \<longrightarrow>
            calcForcesAndEnergy platform impl context includeForces includeEnergy groups =
              (Inr 0, impl, context)) \<and>
         (bit groups (nat (forceGroup (owner impl))) \<longrightarrow> kernel impl = Some h \<longrightarrow>
            calcForcesAndEnergy platform impl context includeForces includeEnergy groups =
              (fst (kernelExecute platform h includeForces includeEnergy (world context)), impl,
               context\<lparr>world :=
                   snd (kernelExecute platform h includeForces includeEnergy (world context)),
                 calls := calls context @ [KernelExecute includeForces includeEnergy]\<rparr>))"
  using assms
  by (simp add: calcForcesAndEnergy_def groupBit_test called_def split: prod.splits)

text \<open>The theorem at force group 0 with the masks 6 (bit 0 clear) and 5 (bit 0 set).\<close>

theorem calcForcesAndEnergy_group_gate_witness:
  "calcForcesAndEnergy countingPlatform \<lparr>owner = okForce, kernel = Some 7\<rparr> freshContext
       True True 6 = (Inr 0, \<lparr>owner = okForce, kernel = Some 7\<rparr>, freshContext) \<and>
   calcForcesAndEnergy countingPlatform \<lparr>owner = okForce, kernel = Some 7\<rparr> freshContext
       True True 5 =
     (Inr 2.5, \<lparr>owner = okForce, kernel = Some 7\<rparr>,
      \<lparr>getSystem = cubeSystem, world = 1, calls = [KernelExecute True True]\<rparr>)"
proof -
  have g: "0 \<le> forceGroup (owner \<lparr>owner = okForce, kernel = Some (7::nat)\<rparr>)"
    "forceGroup (owner \<lparr>owner = okForce, kernel = Some (7::nat)\<rparr>) < 32"
    by (simp_all add: example_defs)
  have b: "\<not> bit (6 :: 32 word) (nat (forceGroup (owner \<lparr>owner = okForce, kernel = Some (7::nat)\<rparr>)))"
    "bit (5 :: 32 word) (nat (forceGroup (owner \<lparr>owner = okForce, kernel = Some (7::nat)\<rparr>)))"
    by (simp_all add: example_defs)
  show ?thesis
    using calcForcesAndEnergy_group_gate [OF g, of 6 countingPlatform freshContext True True 7]
      calcForcesAndEnergy_group_gate [OF g, of 5 countingPlatform freshContext True True 7] b
    by (simp add: example_defs)
qed

end
